theory Spec2Isabelle
  imports Main
begin

section \<open>Go strings as byte sequences\<close>

text \<open>
  A Go \<open>string\<close> is a sequence of bytes; \<open>len\<close>, slicing, \<open>strings.Index\<close>,
  \<open>strings.HasPrefix\<close> and \<open>strings.Split\<close> all work on bytes. A \<open>string\<close> of HOL
  is a list of 8-bit characters, so \<open>length\<close> is Go's \<open>len\<close>.
\<close>

definition NL :: char where
  "NL = CHR 0x0A"

definition CR :: char where
  "CR = CHR 0x0D"

text \<open>\<open>strings.HasPrefix(s, p)\<close>.\<close>

definition HasPrefix :: "string \<Rightarrow> string \<Rightarrow> bool" where
  "HasPrefix s p = (take (length p) s = p)"

text \<open>\<open>strings.Index(s, sub)\<close>: the offset of the first occurrence, \<open>None\<close> for Go's -1.\<close>

fun Index :: "string \<Rightarrow> string \<Rightarrow> nat option" where
  "Index [] sub = (if sub = [] then Some 0 else None)"
| "Index (c # cs) sub =
     (if HasPrefix (c # cs) sub then Some 0 else map_option Suc (Index cs sub))"

definition Contains :: "string \<Rightarrow> string \<Rightarrow> bool" where
  "Contains s sub = (Index s sub \<noteq> None)"

text \<open>\<open>strings.Split(s, "\n")\<close>: the pieces between newlines, always at least one.\<close>

fun Split_NL :: "string \<Rightarrow> string list" where
  "Split_NL [] = [[]]"
| "Split_NL (c # cs) =
     (if c = NL then [] # Split_NL cs
      else (case Split_NL cs of [] \<Rightarrow> [[c]] | l # ls \<Rightarrow> (c # l) # ls))"

text \<open>
  \<open>strings.TrimSpace\<close> removes leading and trailing white space as Unicode defines it
  (\<open>unicode.IsSpace\<close>). On bytes these are the six ASCII characters tab, newline,
  vertical tab, form feed, carriage return and space, and the UTF-8 encodings of
  U+0085, U+00A0, U+1680, U+2000 to U+200A, U+2028, U+2029, U+202F, U+205F and U+3000.
\<close>

definition space_encodings :: "string list" where
  "space_encodings =
     [[CHR 0x09], [CHR 0x0A], [CHR 0x0B], [CHR 0x0C], [CHR 0x0D], [CHR 0x20],
      [CHR 0xC2, CHR 0x85], [CHR 0xC2, CHR 0xA0],
      [CHR 0xE1, CHR 0x9A, CHR 0x80],
      [CHR 0xE2, CHR 0x80, CHR 0x80], [CHR 0xE2, CHR 0x80, CHR 0x81],
      [CHR 0xE2, CHR 0x80, CHR 0x82], [CHR 0xE2, CHR 0x80, CHR 0x83],
      [CHR 0xE2, CHR 0x80, CHR 0x84], [CHR 0xE2, CHR 0x80, CHR 0x85],
      [CHR 0xE2, CHR 0x80, CHR 0x86], [CHR 0xE2, CHR 0x80, CHR 0x87],
      [CHR 0xE2, CHR 0x80, CHR 0x88], [CHR 0xE2, CHR 0x80, CHR 0x89],
      [CHR 0xE2, CHR 0x80, CHR 0x8A],
      [CHR 0xE2, CHR 0x80, CHR 0xA8], [CHR 0xE2, CHR 0x80, CHR 0xA9],
      [CHR 0xE2, CHR 0x80, CHR 0xAF], [CHR 0xE2, CHR 0x81, CHR 0x9F],
      [CHR 0xE3, CHR 0x80, CHR 0x80]]"

function trim_leading :: "string list \<Rightarrow> string \<Rightarrow> string" where
  "trim_leading sps s =
     (case find (\<lambda>sp. sp \<noteq> [] \<and> HasPrefix s sp) sps of
        None \<Rightarrow> s
      | Some sp \<Rightarrow> trim_leading sps (drop (length sp) s))"
  by pat_completeness auto
termination
proof (relation "measure (\<lambda>(sps, s). length s)")
  show "wf (measure (\<lambda>(sps, s). length s))" by simp
next
  fix sps :: "string list" and s sp :: string
  assume "find (\<lambda>sp. sp \<noteq> [] \<and> HasPrefix s sp) sps = Some sp"
  then have "sp \<noteq> []" and "HasPrefix s sp"
    by (auto simp: find_Some_iff)
  then have "s \<noteq> []"
    by (auto simp: HasPrefix_def)
  with \<open>sp \<noteq> []\<close> show "((sps, drop (length sp) s), (sps, s)) \<in> measure (\<lambda>(sps, s). length s)"
    by simp
qed

declare trim_leading.simps [simp del]

definition TrimSpace :: "string \<Rightarrow> string" where
  "TrimSpace s =
     rev (trim_leading (map rev space_encodings) (rev (trim_leading space_encodings s)))"

section \<open>Domain model\<close>

datatype detail = Empty | TooLong nat

datatype error =
    ErrInvalidCategory string
  | ErrInvalidTag detail
  | ErrInvalidContent detail
  | ErrInvalidRationale detail
  | ErrForbiddenContent string
  | ErrListItem
  | MkdirFailed
  | LockFailed
  | ContextCancelled
  | ReadFailed
  | SectionNotFound string
  | WriteTempFailed
  | RenameTempFailed
  | WriteMemoryFileFailed error
  | SliceOutOfRange

text \<open>\<open>SectionType\<close> is a named string type; any string can be converted to it.\<close>

type_synonym SectionType = string

definition IsValid :: "SectionType \<Rightarrow> bool" where
  "IsValid s =
     (s = ''constraints'' \<or> s = ''decisions'' \<or> s = ''patterns''
      \<or> s = ''anti-patterns'' \<or> s = ''note'')"

record AppendInput =
  Category :: string
  Tag :: string
  Content :: string
  Rationale :: string

subsection \<open>Input validation\<close>

definition forbidden :: "string list" where
  "forbidden = [[NL], [CR], ''###'', ''```'', ''<'', ''>'']"

definition ValidateContent :: "string \<Rightarrow> error + unit" where
  "ValidateContent content =
     (case find (\<lambda>f. Contains content f) forbidden of
        Some f \<Rightarrow> Inl (ErrForbiddenContent f)
      | None \<Rightarrow>
          (let trimmed = TrimSpace content
           in if HasPrefix trimmed ''- '' \<or> HasPrefix trimmed ''* ''
              then Inl ErrListItem else Inr ()))"

text \<open>
  \<open>ValidateInput\<close> receives its input by value: the default category is written to
  the local copy only, and the caller's \<open>AppendInput\<close> keeps its empty category.
\<close>

definition ValidateInput :: "AppendInput \<Rightarrow> error + unit" where
  "ValidateInput input =
     (let category = (if Category input = [] then ''note'' else Category input)
      in if \<not> IsValid category then Inl (ErrInvalidCategory category)
         else if length (Tag input) = 0 then Inl (ErrInvalidTag Empty)
         else if length (Tag input) > 50 then Inl (ErrInvalidTag (TooLong (length (Tag input))))
         else if length (Content input) = 0 then Inl (ErrInvalidContent Empty)
         else if length (Content input) > 2000
           then Inl (ErrInvalidContent (TooLong (length (Content input))))
         else (case ValidateContent (Content input) of
                 Inl e \<Rightarrow> Inl e
               | Inr _ \<Rightarrow>
                   if length (Rationale input) > 500
                   then Inl (ErrInvalidRationale (TooLong (length (Rationale input))))
                   else Inr ()))"



abbreviation tag_ok :: "AppendInput \<Rightarrow> bool" where
  "tag_ok inp \<equiv> 0 < length (Tag inp) \<and> length (Tag inp) \<le> 50"

subsection \<open>Time stamps\<close>

text \<open>
  A \<open>time.Time\<close> is modelled by its civil fields in its own zone and the zone's offset
  east of UTC in seconds, for years from 0 on. \<open>Format(time.RFC3339)\<close> prints the layout
  \<open>2006-01-02T15:04:05Z07:00\<close>: each field in decimal, padded with zeros to its width,
  and the zone as \<open>Z\<close> when the offset is zero, as a signed \<open>hh:mm\<close> otherwise. The zero
  value of \<open>time.Time\<close> is midnight UTC of January 1 of year 1.
\<close>

record Time =
  Year :: nat
  Month :: nat
  Day :: nat
  Hour :: nat
  Minute :: nat
  Second :: nat
  ZoneOffset :: int

definition zeroTime :: Time where
  "zeroTime = \<lparr>Year = 1, Month = 1, Day = 1, Hour = 0, Minute = 0, Second = 0, ZoneOffset = 0\<rparr>"

definition digit :: "nat \<Rightarrow> char" where
  "digit d = ''0123456789'' ! (d mod 10)"

fun decimal :: "nat \<Rightarrow> string" where
  "decimal n = (if n < 10 then [digit n] else decimal (n div 10) @ [digit n])"

declare decimal.simps [simp del]

definition appendInt :: "nat \<Rightarrow> nat \<Rightarrow> string" where
  "appendInt x width = replicate (width - length (decimal x)) CHR ''0'' @ decimal x"

definition formatZone :: "int \<Rightarrow> string" where
  "formatZone offset =
     (if offset = 0 then ''Z''
      else (let zone = (if offset < 0 then - ((- offset) div 60) else offset div 60);
                sign = (if zone < 0 then ''-'' else ''+'');
                z = nat \<bar>zone\<bar>
            in sign @ appendInt (z div 60) 2 @ '':'' @ appendInt (z mod 60) 2))"

definition formatRFC3339 :: "Time \<Rightarrow> string" where
  "formatRFC3339 t =
     appendInt (Year t) 4 @ ''-'' @ appendInt (Month t) 2 @ ''-'' @ appendInt (Day t) 2 @ ''T''
     @ appendInt (Hour t) 2 @ '':'' @ appendInt (Minute t) 2 @ '':'' @ appendInt (Second t) 2
     @ formatZone (ZoneOffset t)"

subsection \<open>Entries and sections\<close>

record Entry =
  Entry_ID :: string
  Entry_Tag :: string
  Entry_TagName :: string
  Entry_Content :: string
  Entry_Rationale :: string
  Entry_CreatedAt :: Time

record Section =
  Section_Type :: SectionType
  Section_Entries :: "Entry list"

text \<open>\<open>strings.Trim(s, cutset)\<close>: drops leading and trailing bytes of the (ASCII) cutset.\<close>

definition Trim :: "string \<Rightarrow> string \<Rightarrow> string" where
  "Trim s cutset =
     rev (dropWhile (\<lambda>c. c \<in> set cutset) (rev (dropWhile (\<lambda>c. c \<in> set cutset) s)))"

definition PrepareEntry :: "AppendInput \<Rightarrow> string \<Rightarrow> Time \<Rightarrow> Entry" where
  "PrepareEntry input uuid now =
     (let tag = (if \<not> HasPrefix (Tag input) ''['' then ''['' @ Tag input @ '']'' else Tag input);
          tagName = Trim tag ''[]''
      in \<lparr>Entry_ID = uuid, Entry_Tag = tag, Entry_TagName = tagName,
          Entry_Content = Content input, Entry_Rationale = Rationale input,
          Entry_CreatedAt = now\<rparr>)"

section \<open>Entry codec\<close>

definition renderEntry :: "Entry \<Rightarrow> string" where
  "renderEntry entry =
     ''<!-- entry-id: '' @ Entry_ID entry @ '', tag: '' @ Entry_Tag entry
       @ '', time: '' @ formatRFC3339 (Entry_CreatedAt entry) @ '' -->'' @ [NL]
     @ ''* **['' @ Entry_TagName entry @ '']** '' @ Entry_Content entry
     @ (if Entry_Rationale entry \<noteq> []
        then '' (*Rationale: '' @ Entry_Rationale entry @ ''*)'' else [])
     @ [NL] @ ''<!-- entry-end -->''"

subsection \<open>Regular expressions\<close>

text \<open>
  Go's \<open>regexp\<close> package returns the leftmost match and, among the matches that begin
  there, the one a backtracking search finds first. The matcher below is that
  backtracking search, for the operators the two patterns of the repository use: a
  literal, a greedy \<open>+\<close> and a lazy \<open>+?\<close> of a character class, a capturing group, a
  greedy optional group, concatenation, and the anchors \<open>^\<close> and \<open>$\<close> with and without the
  multi-line flag. A state of the search is the byte before the current position
  (\<open>None\<close> at the start of the text), the rest of the text, and the captures so far
  (the empty string for a group that took no part, as \<open>FindStringSubmatch\<close> reports it).
  The library matches UTF-8 runes where the model matches bytes; the classes of the two
  patterns are \<open>[a-f0-9-]\<close> and complements of one ASCII character, and what follows
  a repetition is an ASCII literal or the end of the text, so on text that is valid
  UTF-8 the submatches are the same.
\<close>

datatype cclass = OneOf string | NoneOf string

fun in_class :: "cclass \<Rightarrow> char \<Rightarrow> bool" where
  "in_class (OneOf cs) c = (c \<in> set cs)"
| "in_class (NoneOf cs) c = (c \<notin> set cs)"

datatype regex =
    Lit string
  | Plus cclass
  | LazyPlus cclass
  | Group nat regex
  | Opt regex
  | Seq regex regex
  | BeginLine
  | EndLine
  | BeginText
  | EndText

fun first_some :: "('a \<Rightarrow> 'b option) \<Rightarrow> 'a list \<Rightarrow> 'b option" where
  "first_some f [] = None"
| "first_some f (x # xs) = (case f x of Some y \<Rightarrow> Some y | None \<Rightarrow> first_some f xs)"

primrec rmatch ::
  "regex \<Rightarrow> char option \<Rightarrow> string \<Rightarrow> string list
     \<Rightarrow> (char option \<Rightarrow> string \<Rightarrow> string list \<Rightarrow> 'r option) \<Rightarrow> 'r option" where
  "rmatch (Lit l) p s caps k =
     (if HasPrefix s l
      then k (if l = [] then p else Some (last l)) (drop (length l) s) caps
      else None)"
| "rmatch (Plus cl) p s caps k =
     first_some (\<lambda>m. k (Some (s ! (m - 1))) (drop m s) caps)
       (rev [1..<Suc (length (takeWhile (in_class cl) s))])"
| "rmatch (LazyPlus cl) p s caps k =
     first_some (\<lambda>m. k (Some (s ! (m - 1))) (drop m s) caps)
       [1..<Suc (length (takeWhile (in_class cl) s))]"
| "rmatch (Group n r) p s caps k =
     rmatch r p s caps (\<lambda>p' s' caps'. k p' s' (caps'[n := take (length s - length s') s]))"
| "rmatch (Opt r) p s caps k =
     (case rmatch r p s caps k of Some x \<Rightarrow> Some x | None \<Rightarrow> k p s caps)"
| "rmatch (Seq r1 r2) p s caps k =
     rmatch r1 p s caps (\<lambda>p' s' caps'. rmatch r2 p' s' caps' k)"
| "rmatch BeginLine p s caps k = (if p = None \<or> p = Some NL then k p s caps else None)"
| "rmatch EndLine p s caps k = (if s = [] \<or> hd s = NL then k p s caps else None)"
| "rmatch BeginText p s caps k = (if p = None then k p s caps else None)"
| "rmatch EndText p s caps k = (if s = [] then k p s caps else None)"

fun Cat :: "regex list \<Rightarrow> regex" where
  "Cat [] = Lit []"
| "Cat [r] = r"
| "Cat (r # rs) = Seq r (Cat rs)"

text \<open>
  The leftmost match from a position on: the submatches (index 0 the whole match),
  and the state after the match.
\<close>

fun find_first ::
  "regex \<Rightarrow> nat \<Rightarrow> char option \<Rightarrow> string \<Rightarrow> (string list \<times> char option \<times> string) option" where
  "find_first re ngroups p [] =
     rmatch re p [] (replicate (Suc ngroups) [])
       (\<lambda>p' s' caps. Some (caps[0 := []], p', s'))"
| "find_first re ngroups p (c # cs) =
     (case rmatch re p (c # cs) (replicate (Suc ngroups) [])
             (\<lambda>p' s' caps. Some (caps[0 := take (length (c # cs) - length s') (c # cs)], p', s')) of
        Some m \<Rightarrow> Some m
      | None \<Rightarrow> find_first re ngroups (Some c) cs)"

definition FindStringSubmatch :: "regex \<Rightarrow> nat \<Rightarrow> string \<Rightarrow> string list option" where
  "FindStringSubmatch re ngroups s = map_option fst (find_first re ngroups None s)"

text \<open>
  \<open>FindAllStringSubmatch(s, -1)\<close>: the successive matches, each search starting where
  the match before it ended. Both patterns of the repository begin with a literal
  that is not empty, so a match is never empty and the search always moves on; the
  library's special treatment of empty matches is not modelled, and the search
  stops should one occur.
\<close>

function find_all :: "regex \<Rightarrow> nat \<Rightarrow> char option \<Rightarrow> string \<Rightarrow> string list list" where
  "find_all re ngroups p s =
     (case find_first re ngroups p s of
        None \<Rightarrow> []
      | Some (m, p', s') \<Rightarrow>
          if length s' < length s then m # find_all re ngroups p' s' else [m])"
  by pat_completeness auto
termination
  by (relation "measure (\<lambda>(re, ngroups, p, s). length s)") auto

declare find_all.simps [simp del]

definition FindAllStringSubmatch :: "regex \<Rightarrow> nat \<Rightarrow> string \<Rightarrow> string list list" where
  "FindAllStringSubmatch re ngroups s = find_all re ngroups None s"

subsection \<open>Anchored format\<close>

definition anchoredEntryRegex :: regex where
  "anchoredEntryRegex =
     Cat [BeginLine, Lit ''<!-- entry-id: '', Group 1 (Plus (OneOf ''abcdef0123456789-'')),
          Lit '', tag: ['', Group 2 (Plus (NoneOf '']'')),
          Lit ''], time: '', Group 3 (Plus (NoneOf [NL])), Lit '' -->'',
          Lit [NL],
          BeginLine, Lit ''* **['', Group 4 (Plus (NoneOf '']'')), Lit '']** '',
          Group 5 (LazyPlus (NoneOf [NL])),
          Opt (Cat [Lit '' (*Rationale:'', Group 6 (LazyPlus (NoneOf [NL])), Lit ''*)'']),
          Lit [NL],
          BeginLine, Lit ''<!-- entry-end -->'', EndLine]"

text \<open>
  \<open>parseV1Anchored\<close> returns \<open>None\<close> for its error "no anchored entries found". The
  entries it builds leave \<open>CreatedAt\<close> at its zero value.
\<close>

definition parseV1Anchored :: "string \<Rightarrow> Entry list option" where
  "parseV1Anchored block =
     (case FindAllStringSubmatch anchoredEntryRegex 6 block of
        [] \<Rightarrow> None
      | m # ms \<Rightarrow>
          Some (map (\<lambda>match.
                  (let tag = match ! 2
                   in \<lparr>Entry_ID = match ! 1, Entry_Tag = ''['' @ tag @ '']'',
                       Entry_TagName = tag, Entry_Content = match ! 3,
                       Entry_Rationale = match ! 4, Entry_CreatedAt = zeroTime\<rparr>))
                (filter (\<lambda>match. \<not> length match < 6) (m # ms))))"

subsection \<open>Legacy inline format\<close>

definition legacyEntryRegex :: regex where
  "legacyEntryRegex =
     Cat [BeginText, Lit ''* **['', Group 1 (Plus (NoneOf '']'')), Lit '']** '',
          Group 2 (LazyPlus (NoneOf [NL])),
          Opt (Cat [Lit '' (*Rationale:'', Group 3 (LazyPlus (NoneOf [NL])), Lit ''*)'']),
          EndText]"

definition parseLegacyLine :: "string \<Rightarrow> Entry list" where
  "parseLegacyLine line0 =
     (let line = TrimSpace line0
      in if HasPrefix line ''* **[''
         then (case FindStringSubmatch legacyEntryRegex 3 line of
                 Some match \<Rightarrow>
                   [\<lparr>Entry_ID = [], Entry_Tag = ''['' @ match ! 1 @ '']'',
                     Entry_TagName = match ! 1, Entry_Content = match ! 2,
                     Entry_Rationale = match ! 3, Entry_CreatedAt = zeroTime\<rparr>]
               | None \<Rightarrow> [])
         else [])"

definition parseLegacyInline :: "string \<Rightarrow> Entry list" where
  "parseLegacyInline block = concat (map parseLegacyLine (Split_NL block))"

section \<open>Section locator\<close>

text \<open>
  \<open>capitalize\<close> upper-cases the first byte with \<open>strings.ToUpper\<close>. On a one-byte string
  that maps an ASCII lower-case letter to its capital, leaves every other ASCII byte,
  and replaces a byte from 0x80 on, which alone is not valid UTF-8, by the encoding of
  the replacement character U+FFFD.
\<close>

definition ToUpper1 :: "char \<Rightarrow> string" where
  "ToUpper1 c =
     (case map_of (zip ''abcdefghijklmnopqrstuvwxyz'' ''ABCDEFGHIJKLMNOPQRSTUVWXYZ'') c of
        Some u \<Rightarrow> [u]
      | None \<Rightarrow> if (of_char c :: nat) < 128 then [c] else [CHR 0xEF, CHR 0xBF, CHR 0xBD])"

fun capitalize :: "string \<Rightarrow> string" where
  "capitalize [] = []"
| "capitalize (c # cs) = ToUpper1 c @ cs"

definition findSectionStart :: "string \<Rightarrow> string \<Rightarrow> nat option" where
  "findSectionStart content section = Index content (''## '' @ section)"

text \<open>
  \<open>findSectionEnd\<close> slices \<open>content[start+3:]\<close>, which panics when \<open>start + 3\<close> exceeds the
  length. \<open>strings.Index\<close> cannot miss a line that \<open>strings.Split\<close> produced; were it to
  return -1, the result would be \<open>start + 3 - 1\<close>.
\<close>

definition findSectionEnd :: "string \<Rightarrow> nat \<Rightarrow> error + nat" where
  "findSectionEnd content start =
     (if length content < start + 3 then Inl SliceOutOfRange
      else (let remaining = drop (start + 3) content;
                lines = Split_NL remaining
            in case find (\<lambda>line. HasPrefix line ''## '') lines of
                 Some line \<Rightarrow>
                   (case Index remaining line of
                      Some pos \<Rightarrow> Inr (start + 3 + pos)
                    | None \<Rightarrow> Inr (start + 3 - 1))
               | None \<Rightarrow> Inr (length content)))"

text \<open>\<open>s[i:j]\<close>: panics unless \<open>i \<le> j \<le> len(s)\<close>.\<close>

definition slice :: "string \<Rightarrow> nat \<Rightarrow> nat \<Rightarrow> error + string" where
  "slice s i j =
     (if i \<le> j \<and> j \<le> length s then Inr (take (j - i) (drop i s)) else Inl SliceOutOfRange)"

definition TrimPrefix :: "string \<Rightarrow> string \<Rightarrow> string" where
  "TrimPrefix s p = (if HasPrefix s p then drop (length p) s else s)"

text \<open>
  \<open>extractSection\<close> also tests \<open>end == -1\<close>, which \<open>findSectionEnd\<close> never returns.
\<close>

definition extractSection :: "string \<Rightarrow> string \<Rightarrow> error + string" where
  "extractSection content sectionType =
     (let section = capitalize sectionType
      in case findSectionStart content section of
           None \<Rightarrow> Inr []
         | Some start \<Rightarrow>
             (case findSectionEnd content start of
                Inl e \<Rightarrow> Inl e
              | Inr end \<Rightarrow>
                  (case slice content start end of
                     Inl e \<Rightarrow> Inl e
                   | Inr sectionContent \<Rightarrow>
                       Inr (TrimPrefix sectionContent (''## '' @ section @ [NL])))))"

text \<open>
  What the specification asks of the section end, written from its words: the offset
  of the first line after the heading line that begins with \<open>## \<close>, or the length of
  the document when there is none. \<open>line_starting\<close> walks the lines that follow the
  heading line, carrying the offset at which the current line begins.
\<close>

fun line_starting :: "string \<Rightarrow> nat \<Rightarrow> string list \<Rightarrow> nat option" where
  "line_starting p off [] = None"
| "line_starting p off (l # ls) =
     (if HasPrefix l p then Some off else line_starting p (off + length l + 1) ls)"

definition sectionEnd_spec :: "string \<Rightarrow> nat \<Rightarrow> nat" where
  "sectionEnd_spec content start =
     (case Split_NL (drop start content) of
        [] \<Rightarrow> length content
      | heading # ls \<Rightarrow>
          (case line_starting ''## '' (start + length heading + 1) ls of
             Some off \<Rightarrow> off
           | None \<Rightarrow> length content))"

section \<open>Storage engine\<close>

text \<open>
  The store is the memory file and its sibling temporary file, each absent or holding
  text. What the operating system does on a call is given by an environment: whether
  creating the directory fails, how the wait for the lock ends, whether reading fails
  with an error other than "does not exist", whether writing the temporary file fails
  (and what the failed write leaves at its path), and whether the rename fails. A
  rename replaces its target in one step or leaves it as it was; \<open>os.Remove\<close>, whose
  result the code ignores, leaves no file at its path.
\<close>

record Store =
  memory_file :: "string option"
  temp_file :: "string option"

datatype lock_outcome = Locked | LockErr | CtxDone

datatype write_outcome = Written | WriteErr "string option"

record Env =
  mkdir_fails :: bool
  lock_wait :: lock_outcome
  read_fails :: bool
  write_temp :: write_outcome
  rename_fails :: bool

definition acquireLock :: "Env \<Rightarrow> error + unit" where
  "acquireLock env =
     (if mkdir_fails env then Inl MkdirFailed
      else (case lock_wait env of
              CtxDone \<Rightarrow> Inl ContextCancelled
            | LockErr \<Rightarrow> Inl LockFailed
            | Locked \<Rightarrow> Inr ()))"

definition readFile :: "Env \<Rightarrow> Store \<Rightarrow> error + string" where
  "readFile env st =
     (if mkdir_fails env then Inl MkdirFailed
      else (case memory_file st of
              None \<Rightarrow> Inr []
            | Some text \<Rightarrow> if read_fails env then Inl ReadFailed else Inr text))"

definition os_WriteFile_temp :: "Env \<Rightarrow> Store \<Rightarrow> string \<Rightarrow> bool \<times> Store" where
  "os_WriteFile_temp env st content =
     (case write_temp env of
        Written \<Rightarrow> (True, st\<lparr>temp_file := Some content\<rparr>)
      | WriteErr left \<Rightarrow> (False, st\<lparr>temp_file := left\<rparr>))"

definition os_Remove_temp :: "Store \<Rightarrow> Store" where
  "os_Remove_temp st = st\<lparr>temp_file := None\<rparr>"

definition os_Rename_temp :: "Env \<Rightarrow> Store \<Rightarrow> bool \<times> Store" where
  "os_Rename_temp env st =
     (if rename_fails env \<or> temp_file st = None then (False, st)
      else (True, st\<lparr>memory_file := temp_file st, temp_file := None\<rparr>))"

definition atomicWrite :: "Env \<Rightarrow> Store \<Rightarrow> string \<Rightarrow> (error + unit) \<times> Store" where
  "atomicWrite env st content =
     (case os_WriteFile_temp env st content of
        (False, st1) \<Rightarrow> (Inl WriteTempFailed, os_Remove_temp st1)
      | (True, st1) \<Rightarrow>
          (case os_Rename_temp env st1 of
             (False, st2) \<Rightarrow> (Inl RenameTempFailed, os_Remove_temp st2)
           | (True, st2) \<Rightarrow> (Inr (), st2)))"

text \<open>\<open>ReadAll\<close> and \<open>GetSection\<close> read only; \<open>GetSection\<close> also returns what it logs.\<close>

definition ReadAll :: "Env \<Rightarrow> Store \<Rightarrow> error + string" where
  "ReadAll env st = readFile env st"

datatype log_event = Warn_legacy_format SectionType

definition GetSection :: "Env \<Rightarrow> Store \<Rightarrow> SectionType \<Rightarrow> error + (Section \<times> log_event list)" where
  "GetSection env st sectionType =
     (case readFile env st of
        Inl e \<Rightarrow> Inl e
      | Inr content \<Rightarrow>
          if content = [] then Inr (\<lparr>Section_Type = sectionType, Section_Entries = []\<rparr>, [])
          else (case extractSection content sectionType of
                  Inl e \<Rightarrow> Inl e
                | Inr sectionBlock \<Rightarrow>
                    if sectionBlock = []
                    then Inr (\<lparr>Section_Type = sectionType, Section_Entries = []\<rparr>, [])
                    else (case parseV1Anchored sectionBlock of
                            Some entries \<Rightarrow>
                              Inr (\<lparr>Section_Type = sectionType, Section_Entries = entries\<rparr>, [])
                          | None \<Rightarrow>
                              (let legacyEntries = parseLegacyInline sectionBlock
                               in if length legacyEntries > 0
                                  then Inr (\<lparr>Section_Type = sectionType,
                                             Section_Entries = legacyEntries\<rparr>,
                                            [Warn_legacy_format sectionType])
                                  else Inr (\<lparr>Section_Type = sectionType,
                                             Section_Entries = []\<rparr>, [])))))"

text \<open>
  \<open>createInitialContent\<close> formats one template; it is written here as its front
  matter, which holds the time stamp, followed by the four empty sections.
\<close>

definition frontMatter :: "Time \<Rightarrow> string" where
  "frontMatter now =
     ''---'' @ [NL]
     @ ''schema_version: '' @ [CHR 0x22] @ ''0.1'' @ [CHR 0x22] @ [NL]
     @ ''entry_format: '' @ [CHR 0x22] @ ''anchored'' @ [CHR 0x22] @ [NL]
     @ ''created_at: '' @ [CHR 0x22] @ formatRFC3339 now @ [CHR 0x22] @ [NL]
     @ ''---'' @ [NL]
     @ [NL]"

definition emptySections :: string where
  "emptySections =
     ''## Constraints'' @ [NL]
     @ [NL]
     @ ''## Decisions'' @ [NL]
     @ [NL]
     @ ''## Patterns'' @ [NL]
     @ [NL]
     @ ''## Anti-Patterns'' @ [NL]"

definition createInitialContent :: "Time \<Rightarrow> string" where
  "createInitialContent now = frontMatter now @ emptySections"

text \<open>
  \<open>AppendEntry\<close>: \<open>clock\<close> is what the repository's time provider returns. The lock is
  released on every path after it was acquired, and the store is returned as the call
  leaves it.
\<close>

definition AppendEntry ::
  "Env \<Rightarrow> Time \<Rightarrow> Store \<Rightarrow> SectionType \<Rightarrow> Entry \<Rightarrow> (error + unit) \<times> Store" where
  "AppendEntry env clock st sectionType entry =
     (case acquireLock env of
        Inl e \<Rightarrow> (Inl e, st)
      | Inr _ \<Rightarrow>
          (case readFile env st of
             Inl e \<Rightarrow> (Inl e, st)
           | Inr content0 \<Rightarrow>
               (let content = (if content0 = [] then createInitialContent clock else content0);
                    renderedEntry = renderEntry entry;
                    section = capitalize sectionType
                in case findSectionStart content section of
                     None \<Rightarrow> (Inl (SectionNotFound section), st)
                   | Some sectionStart \<Rightarrow>
                       (case findSectionEnd content sectionStart of
                          Inl e \<Rightarrow> (Inl e, st)
                        | Inr sectionEnd \<Rightarrow>
                            (case slice content sectionStart sectionEnd of
                               Inl e \<Rightarrow> (Inl e, st)
                             | Inr body \<Rightarrow>
                                 (let newContent =
                                        take sectionStart content @ body @ renderedEntry
                                        @ [NL] @ drop sectionEnd content
                                  in case atomicWrite env st newContent of
                                       (Inl e, st') \<Rightarrow> (Inl (WriteMemoryFileFailed e), st')
                                     | (Inr _, st') \<Rightarrow> (Inr (), st')))))))"

definition AppendMemory ::
  "Env \<Rightarrow> Time \<Rightarrow> Store \<Rightarrow> AppendInput \<Rightarrow> string \<Rightarrow> Time \<Rightarrow> (error + unit) \<times> Store" where
  "AppendMemory env clock st input uuid now =
     AppendEntry env clock st (Category input) (PrepareEntry input uuid now)"

text \<open>An environment in which nothing fails.\<close>

definition no_faults :: Env where
  "no_faults = \<lparr>mkdir_fails = False, lock_wait = Locked, read_fails = False,
                write_temp = Written, rename_fails = False\<rparr>"


section \<open>Properties of the string functions\<close>






lemma HasPrefix_length: "HasPrefix s p \<Longrightarrow> length p \<le> length s"
proof -
  assume "HasPrefix s p"
  then have "length (take (length p) s) = length p"
    by (simp add: HasPrefix_def)
  then show ?thesis by simp
qed

lemma Index_bound: "Index s sub = Some i \<Longrightarrow> i + length sub \<le> length s"
proof (induction s arbitrary: i)
  case Nil
  then show ?case by (simp split: if_splits)
next
  case (Cons c cs)
  show ?case
  proof (cases "HasPrefix (c # cs) sub")
    case True
    then have "length sub \<le> length (c # cs)"
      by (rule HasPrefix_length)
    with True Cons.prems show ?thesis by simp
  next
    case False
    with Cons.prems obtain j where "Index cs sub = Some j" "i = Suc j"
      by auto
    with Cons.IH [of j] show ?thesis by simp
  qed
qed

section \<open>Input validation is as the boundaries say\<close>




lemma ValidateInput_ok_iff:
  "ValidateInput inp = Inr () \<longleftrightarrow>
     IsValid (if Category inp = [] then ''note'' else Category inp) \<and>
     0 < length (Tag inp) \<and> length (Tag inp) \<le> 50 \<and>
     0 < length (Content inp) \<and> length (Content inp) \<le> 2000 \<and>
     ValidateContent (Content inp) = Inr () \<and>
     length (Rationale inp) \<le> 500"
  unfolding ValidateInput_def Let_def
  by (auto split: sum.splits)











section \<open>Section bounds and reading\<close>

lemma findSectionStart_bound:
  "findSectionStart content section = Some start \<Longrightarrow> start + 3 \<le> length content"
  unfolding findSectionStart_def by (drule Index_bound) simp

lemma findSectionEnd_bounds:
  assumes "start + 3 \<le> length content"
  shows "\<exists>e. findSectionEnd content start = Inr e \<and> start \<le> e \<and> e \<le> length content"
proof (cases "find (\<lambda>line. HasPrefix line ''## '') (Split_NL (drop (start + 3) content))")
  case None
  with assms show ?thesis by (simp add: findSectionEnd_def)
next
  case (Some line)
  show ?thesis
  proof (cases "Index (drop (start + 3) content) line")
    case None
    with Some assms show ?thesis by (simp add: findSectionEnd_def)
  next
    case (Some pos)
    from Index_bound [OF Some] have "start + 3 + pos \<le> length content"
      using assms by simp
    with Some \<open>find _ _ = Some line\<close> assms show ?thesis
      by (simp add: findSectionEnd_def)
  qed
qed

lemma extractSection_total: "\<exists>b. extractSection content sectionType = Inr b"
proof (cases "findSectionStart content (capitalize sectionType)")
  case None
  then show ?thesis by (simp add: extractSection_def)
next
  case (Some start)
  from findSectionEnd_bounds [OF findSectionStart_bound [OF Some]]
  obtain e where "findSectionEnd content start = Inr e" "start \<le> e" "e \<le> length content"
    by blast
  with Some show ?thesis by (simp add: extractSection_def slice_def)
qed

lemma readFile_cases:
  "readFile env st = Inl e \<Longrightarrow> mkdir_fails env \<or> read_fails env"
  by (auto simp: readFile_def split: if_splits option.splits)

lemma GetSection_error_iff:
  "GetSection env st sectionType = Inl e \<longleftrightarrow> readFile env st = Inl e"
proof (cases "readFile env st")
  case (Inl a)
  then show ?thesis by (simp add: GetSection_def)
next
  case (Inr content)
  obtain b where "extractSection content sectionType = Inr b"
    using extractSection_total by blast
  with Inr show ?thesis
    by (simp add: GetSection_def Let_def split: option.splits)
qed

lemma GetSection_type:
  "GetSection env st sectionType = Inr (sect, evs) \<Longrightarrow> Section_Type sect = sectionType"
  by (auto simp: GetSection_def Let_def split: sum.splits option.splits if_splits)

lemma GetSection_empty:
  assumes "readFile env st = Inr content"
    and "content = [] \<or> findSectionStart content (capitalize sectionType) = None
         \<or> (\<exists>b. extractSection content sectionType = Inr b
                \<and> parseV1Anchored b = None \<and> parseLegacyInline b = [])"
  shows "GetSection env st sectionType
         = Inr (\<lparr>Section_Type = sectionType, Section_Entries = []\<rparr>, [])"
  using assms
  by (auto simp: GetSection_def extractSection_def Let_def)

text \<open>
  Claim C4. \<open>GetSection\<close> fails exactly when reading the file fails, with the error of
  the read, and a read fails only when the directory cannot be created or the file
  cannot be read. Every section it returns has the requested type. It returns the
  requested type with no entries and no diagnostic when the file does not exist, when
  the text is empty, when the heading of the section is absent, and when neither the
  anchored nor the legacy parser finds an entry in the block of the section.
\<close>

theorem GetSection_lenient:
  "(GetSection env st sectionType = Inl e \<longleftrightarrow> readFile env st = Inl e)
   \<and> (readFile env st = Inl e \<longrightarrow> mkdir_fails env \<or> read_fails env)
   \<and> (\<forall>sect evs. GetSection env st sectionType = Inr (sect, evs)
         \<longrightarrow> Section_Type sect = sectionType)
   \<and> (\<not> mkdir_fails env \<and> memory_file st = None
       \<longrightarrow> GetSection env st sectionType
           = Inr (\<lparr>Section_Type = sectionType, Section_Entries = []\<rparr>, []))
   \<and> (readFile env st = Inr content \<and>
       (content = [] \<or> findSectionStart content (capitalize sectionType) = None
        \<or> (\<exists>b. extractSection content sectionType = Inr b
               \<and> parseV1Anchored b = None \<and> parseLegacyInline b = []))
       \<longrightarrow> GetSection env st sectionType
           = Inr (\<lparr>Section_Type = sectionType, Section_Entries = []\<rparr>, []))"
  (is "?A \<and> ?B \<and> ?C \<and> ?D \<and> ?E")
proof -
  have A: ?A by (rule GetSection_error_iff)
  have B: ?B using readFile_cases by blast
  have C: ?C using GetSection_type by blast
  have D: ?D
  proof
    assume "\<not> mkdir_fails env \<and> memory_file st = None"
    then have "readFile env st = Inr []" by (simp add: readFile_def)
    then show "GetSection env st sectionType
           = Inr (\<lparr>Section_Type = sectionType, Section_Entries = []\<rparr>, [])"
      by (rule GetSection_empty) simp
  qed
  have E: ?E using GetSection_empty [of env st content sectionType] by blast
  from A B C D E show ?thesis by blast
qed

theorem GetSection_lenient_witness:
  "GetSection no_faults \<lparr>memory_file = None, temp_file = None\<rparr> ''patterns''
     = Inr (\<lparr>Section_Type = ''patterns'', Section_Entries = []\<rparr>, [])
   \<and> GetSection no_faults \<lparr>memory_file = Some (''## Decisions'' @ [NL]), temp_file = None\<rparr> ''patterns''
     = Inr (\<lparr>Section_Type = ''patterns'', Section_Entries = []\<rparr>, [])
   \<and> GetSection no_faults
        \<lparr>memory_file = Some (''## Constraints'' @ [NL] @ ''some noise'' @ [NL]
                               @ ''* not an entry'' @ [NL] @ [NL] @ ''## Decisions'' @ [NL]),
         temp_file = None\<rparr> ''constraints''
     = Inr (\<lparr>Section_Type = ''constraints'', Section_Entries = []\<rparr>, [])
   \<and> GetSection (no_faults\<lparr>read_fails := True\<rparr>)
        \<lparr>memory_file = Some (''## Decisions'' @ [NL]), temp_file = None\<rparr> ''patterns''
     = Inl ReadFailed"
proof -
  let ?d2 = "''## Decisions'' @ [NL]"
  let ?d3 = "''## Constraints'' @ [NL] @ ''some noise'' @ [NL]
                               @ ''* not an entry'' @ [NL] @ [NL] @ ''## Decisions'' @ [NL]"
  have 1: "GetSection no_faults \<lparr>memory_file = None, temp_file = None\<rparr> ''patterns''
     = Inr (\<lparr>Section_Type = ''patterns'', Section_Entries = []\<rparr>, [])"
    using GetSection_lenient [of no_faults "\<lparr>memory_file = None, temp_file = None\<rparr>" "''patterns''"]
    by (simp add: no_faults_def)
  have r2: "readFile no_faults \<lparr>memory_file = Some ?d2, temp_file = None\<rparr> = Inr ?d2"
    by (simp add: readFile_def no_faults_def)
  have f2: "findSectionStart ?d2 (capitalize ''patterns'') = None"
    by code_simp
  have 2: "GetSection no_faults \<lparr>memory_file = Some ?d2, temp_file = None\<rparr> ''patterns''
     = Inr (\<lparr>Section_Type = ''patterns'', Section_Entries = []\<rparr>, [])"
    using GetSection_lenient [of no_faults "\<lparr>memory_file = Some ?d2, temp_file = None\<rparr>"
        "''patterns''" _ ?d2] r2 f2
    by simp
  have r3: "readFile no_faults \<lparr>memory_file = Some ?d3, temp_file = None\<rparr> = Inr ?d3"
    by (simp add: readFile_def no_faults_def)
  have e3: "extractSection ?d3 ''constraints''
            = Inr (''some noise'' @ [NL] @ ''* not an entry'' @ [NL] @ [NL])"
    by code_simp
  have p3: "parseV1Anchored (''some noise'' @ [NL] @ ''* not an entry'' @ [NL] @ [NL]) = None"
    by code_simp
  have l3: "parseLegacyInline (''some noise'' @ [NL] @ ''* not an entry'' @ [NL] @ [NL]) = []"
    by code_simp
  have 3: "GetSection no_faults \<lparr>memory_file = Some ?d3, temp_file = None\<rparr> ''constraints''
     = Inr (\<lparr>Section_Type = ''constraints'', Section_Entries = []\<rparr>, [])"
    using GetSection_lenient [of no_faults "\<lparr>memory_file = Some ?d3, temp_file = None\<rparr>"
        "''constraints''" _ ?d3] r3 e3 p3 l3
    by simp
  have r4: "readFile (no_faults\<lparr>read_fails := True\<rparr>)
              \<lparr>memory_file = Some ?d2, temp_file = None\<rparr> = Inl ReadFailed"
    by (simp add: readFile_def no_faults_def)
  have 4: "GetSection (no_faults\<lparr>read_fails := True\<rparr>)
        \<lparr>memory_file = Some ?d2, temp_file = None\<rparr> ''patterns'' = Inl ReadFailed"
    using GetSection_lenient [of "no_faults\<lparr>read_fails := True\<rparr>"
        "\<lparr>memory_file = Some ?d2, temp_file = None\<rparr>" "''patterns''" ReadFailed] r4
    by simp
  from 1 2 3 4 show ?thesis by blast
qed

section \<open>Atomic write and append\<close>

lemma atomicWrite_memory_file:
  "memory_file (snd (atomicWrite env st content)) = memory_file st
   \<or> (fst (atomicWrite env st content) = Inr ()
      \<and> memory_file (snd (atomicWrite env st content)) = Some content)"
  by (auto simp: atomicWrite_def os_WriteFile_temp_def os_Rename_temp_def os_Remove_temp_def
      split: write_outcome.splits)

lemma atomicWrite_write_fails:
  "write_temp env = WriteErr left \<Longrightarrow>
   atomicWrite env st content = (Inl WriteTempFailed, st\<lparr>temp_file := None\<rparr>)"
  by (simp add: atomicWrite_def os_WriteFile_temp_def os_Remove_temp_def)

lemma atomicWrite_rename_fails:
  "write_temp env = Written \<Longrightarrow> rename_fails env \<Longrightarrow>
   atomicWrite env st content = (Inl RenameTempFailed, st\<lparr>temp_file := None\<rparr>)"
  by (simp add: atomicWrite_def os_WriteFile_temp_def os_Rename_temp_def os_Remove_temp_def)

lemma atomicWrite_ok:
  "write_temp env = Written \<Longrightarrow> \<not> rename_fails env \<Longrightarrow>
   atomicWrite env st content = (Inr (), st\<lparr>memory_file := Some content, temp_file := None\<rparr>)"
  by (simp add: atomicWrite_def os_WriteFile_temp_def os_Rename_temp_def os_Remove_temp_def)

lemma atomicWrite_fails:
  assumes "write_temp env \<noteq> Written \<or> rename_fails env"
  shows "\<exists>e. atomicWrite env st content = (Inl e, st\<lparr>temp_file := None\<rparr>)
             \<and> (e = WriteTempFailed \<or> e = RenameTempFailed)"
proof (cases "write_temp env")
  case Written
  with assms show ?thesis by (simp add: atomicWrite_rename_fails)
next
  case (WriteErr left)
  then show ?thesis by (simp add: atomicWrite_write_fails)
qed

lemma AppendEntry_reaches_write:
  assumes "acquireLock env = Inr ()" and "readFile env st = Inr content0"
    and "content = (if content0 = [] then createInitialContent clock else content0)"
    and "findSectionStart content (capitalize sectionType) = Some start"
  shows "\<exists>e. findSectionEnd content start = Inr e \<and> start \<le> e \<and> e \<le> length content \<and>
           AppendEntry env clock st sectionType entry =
             (case atomicWrite env st (take e content @ renderEntry entry @ [NL] @ drop e content) of
                (Inl err, st') \<Rightarrow> (Inl (WriteMemoryFileFailed err), st')
              | (Inr _, st') \<Rightarrow> (Inr (), st'))"
proof -
  obtain e where e: "findSectionEnd content start = Inr e" "start \<le> e" "e \<le> length content"
    using findSectionEnd_bounds [OF findSectionStart_bound [OF assms(4)]] by blast
  then have sl: "slice content start e = Inr (take (e - start) (drop start content))"
    by (simp add: slice_def)
  have "take start content @ take (e - start) (drop start content) = take e content"
    using e(2) by (metis le_add_diff_inverse take_add)
  then have eq: "take start content @ take (e - start) (drop start content) @ r
               = take e content @ r" for r
    by (metis append.assoc)
  show ?thesis
  proof (cases "content0 = []")
    case True
    with assms(3) have c: "content = createInitialContent clock" by simp
    show ?thesis
      using assms(1,2,4) e sl True unfolding c
      by (intro exI [of _ e]) (simp add: AppendEntry_def Let_def eq [unfolded c])
  next
    case False
    with assms(3) have c: "content = content0" by simp
    show ?thesis
      using assms(1,2,4) e sl False unfolding c
      by (intro exI [of _ e]) (simp add: AppendEntry_def Let_def eq [unfolded c])
  qed
qed

lemma AppendEntry_outcomes:
  "(\<exists>err. AppendEntry env clock st sectionType entry = (Inl err, st))
    \<or> (\<exists>c. AppendEntry env clock st sectionType entry =
             (case atomicWrite env st c of
                (Inl err, st') \<Rightarrow> (Inl (WriteMemoryFileFailed err), st')
              | (Inr _, st') \<Rightarrow> (Inr (), st')))"
proof (cases "acquireLock env")
  case (Inl e)
  then show ?thesis by (simp add: AppendEntry_def)
next
  case lock: (Inr u)
  show ?thesis
  proof (cases "readFile env st")
    case (Inl e)
    with lock show ?thesis by (simp add: AppendEntry_def)
  next
    case (Inr content0)
    define c where "c = (if content0 = [] then createInitialContent clock else content0)"
    show ?thesis
    proof (cases "findSectionStart c (capitalize sectionType)")
      case None
      with lock Inr show ?thesis by (simp add: AppendEntry_def c_def Let_def)
    next
      case (Some start)
      from lock have "acquireLock env = Inr ()" by simp
      from AppendEntry_reaches_write [OF this Inr c_def Some, of entry]
      show ?thesis by blast
    qed
  qed
qed

lemma AppendEntry_memory_file_kept:
  assumes "fst (AppendEntry env clock st sectionType entry) \<noteq> Inr ()"
  shows "memory_file (snd (AppendEntry env clock st sectionType entry)) = memory_file st"
proof -
  from AppendEntry_outcomes [of env clock st sectionType entry]
  consider err where "AppendEntry env clock st sectionType entry = (Inl err, st)"
    | c where "AppendEntry env clock st sectionType entry =
             (case atomicWrite env st c of
                (Inl err, st') \<Rightarrow> (Inl (WriteMemoryFileFailed err), st')
              | (Inr _, st') \<Rightarrow> (Inr (), st'))"
    by blast
  then show ?thesis
  proof cases
    case 1
    then show ?thesis by simp
  next
    case 2
    obtain r st' where aw: "atomicWrite env st c = (r, st')"
      by (cases "atomicWrite env st c")
    with 2 assms obtain e where "r = Inl e"
      by (cases r) auto
    with aw atomicWrite_memory_file [of env st c] have "memory_file st' = memory_file st"
      by auto
    with 2 aw \<open>r = Inl e\<close> show ?thesis by simp
  qed
qed

lemma AppendEntry_needs_write:
  assumes "write_temp env \<noteq> Written \<or> rename_fails env"
  shows "fst (AppendEntry env clock st sectionType entry) \<noteq> Inr ()"
proof -
  from AppendEntry_outcomes [of env clock st sectionType entry]
  consider err where "AppendEntry env clock st sectionType entry = (Inl err, st)"
    | c where "AppendEntry env clock st sectionType entry =
             (case atomicWrite env st c of
                (Inl err, st') \<Rightarrow> (Inl (WriteMemoryFileFailed err), st')
              | (Inr _, st') \<Rightarrow> (Inr (), st'))"
    by blast
  then show ?thesis
  proof cases
    case 1
    then show ?thesis by simp
  next
    case 2
    from atomicWrite_fails [OF assms, of st c] 2 show ?thesis by auto
  qed
qed

text \<open>
  Claim C7. When writing the temporary file fails or the rename fails, \<open>atomicWrite\<close>
  returns the error of the failed step and leaves no temporary file and the store
  otherwise as it was. After any \<open>atomicWrite\<close> the memory file holds what it held before
  or the whole new text. In such an environment \<open>AppendEntry\<close> never succeeds and always
  leaves the memory file as it was; when it gets as far as the write (lock acquired,
  file read, heading found) it returns the write error, wrapped, and the temporary
  file is gone.
\<close>

theorem atomicWrite_failure_keeps_document:
  "(write_temp env \<noteq> Written \<or> rename_fails env \<longrightarrow>
      (\<exists>e. atomicWrite env st content = (Inl e, st\<lparr>temp_file := None\<rparr>)
           \<and> (e = WriteTempFailed \<or> e = RenameTempFailed)))
   \<and> (memory_file (snd (atomicWrite env st content)) = memory_file st
      \<or> memory_file (snd (atomicWrite env st content)) = Some content)
   \<and> (write_temp env \<noteq> Written \<or> rename_fails env \<longrightarrow>
      fst (AppendEntry env clock st sectionType entry) \<noteq> Inr ()
      \<and> memory_file (snd (AppendEntry env clock st sectionType entry)) = memory_file st)
   \<and> ((write_temp env \<noteq> Written \<or> rename_fails env) \<and>
      acquireLock env = Inr () \<and> readFile env st = Inr content0 \<and>
      findSectionStart (if content0 = [] then createInitialContent clock else content0)
        (capitalize sectionType) \<noteq> None \<longrightarrow>
      (\<exists>e. AppendEntry env clock st sectionType entry
             = (Inl (WriteMemoryFileFailed e), st\<lparr>temp_file := None\<rparr>)
           \<and> (e = WriteTempFailed \<or> e = RenameTempFailed)))"
  (is "?A \<and> ?B \<and> ?C \<and> ?D")
proof -
  have A: ?A using atomicWrite_fails by blast
  have B: ?B using atomicWrite_memory_file [of env st content] by blast
  have D: ?D
  proof
    assume h: "(write_temp env \<noteq> Written \<or> rename_fails env) \<and>
      acquireLock env = Inr () \<and> readFile env st = Inr content0 \<and>
      findSectionStart (if content0 = [] then createInitialContent clock else content0)
        (capitalize sectionType) \<noteq> None"
    define c where "c = (if content0 = [] then createInitialContent clock else content0)"
    from h obtain start where "findSectionStart c (capitalize sectionType) = Some start"
      unfolding c_def by blast
    from AppendEntry_reaches_write [OF _ _ c_def this, of env st entry] h
    obtain e where ae: "AppendEntry env clock st sectionType entry =
             (case atomicWrite env st (take e c @ renderEntry entry @ [NL] @ drop e c) of
                (Inl err, st') \<Rightarrow> (Inl (WriteMemoryFileFailed err), st')
              | (Inr _, st') \<Rightarrow> (Inr (), st'))"
      by blast
    from h atomicWrite_fails [of env st "take e c @ renderEntry entry @ [NL] @ drop e c"]
    obtain err where "atomicWrite env st (take e c @ renderEntry entry @ [NL] @ drop e c)
         = (Inl err, st\<lparr>temp_file := None\<rparr>)" "err = WriteTempFailed \<or> err = RenameTempFailed"
      by blast
    with ae show "\<exists>e. AppendEntry env clock st sectionType entry
             = (Inl (WriteMemoryFileFailed e), st\<lparr>temp_file := None\<rparr>)
           \<and> (e = WriteTempFailed \<or> e = RenameTempFailed)"
      by simp
  qed
  have C: ?C
    using AppendEntry_needs_write [of env clock st sectionType entry]
      AppendEntry_memory_file_kept [of env clock st sectionType entry]
    by blast
  from A B C D show ?thesis by blast
qed

theorem atomicWrite_failure_keeps_document_witness:
  "(\<exists>e. atomicWrite (no_faults\<lparr>write_temp := WriteErr (Some ''## Con'')\<rparr>)
           \<lparr>memory_file = Some (''## Constraints'' @ [NL]), temp_file = None\<rparr>
           (''## Constraints'' @ [NL] @ ''new'' @ [NL])
         = (Inl e, \<lparr>memory_file = Some (''## Constraints'' @ [NL]), temp_file = None\<rparr>)
         \<and> (e = WriteTempFailed \<or> e = RenameTempFailed))
   \<and> (\<exists>e. AppendEntry (no_faults\<lparr>rename_fails := True\<rparr>) zeroTime
           \<lparr>memory_file = Some (''## Constraints'' @ [NL]), temp_file = None\<rparr> ''constraints''
           \<lparr>Entry_ID = ''0190a6f0'', Entry_Tag = ''[API]'', Entry_TagName = ''API'',
            Entry_Content = ''Use RESTful conventions'', Entry_Rationale = [],
            Entry_CreatedAt = zeroTime\<rparr>
         = (Inl (WriteMemoryFileFailed e),
            \<lparr>memory_file = Some (''## Constraints'' @ [NL]), temp_file = None\<rparr>)
         \<and> (e = WriteTempFailed \<or> e = RenameTempFailed))"
proof -
  let ?st = "\<lparr>memory_file = Some (''## Constraints'' @ [NL]), temp_file = None\<rparr>"
  let ?e = "\<lparr>Entry_ID = ''0190a6f0'', Entry_Tag = ''[API]'', Entry_TagName = ''API'',
            Entry_Content = ''Use RESTful conventions'', Entry_Rationale = [],
            Entry_CreatedAt = zeroTime\<rparr>"
  have f: "findSectionStart (''## Constraints'' @ [NL]) (capitalize ''constraints'') = Some 0"
    by code_simp
  have 1: "\<exists>e. atomicWrite (no_faults\<lparr>write_temp := WriteErr (Some ''## Con'')\<rparr>) ?st
           (''## Constraints'' @ [NL] @ ''new'' @ [NL]) = (Inl e, ?st)
         \<and> (e = WriteTempFailed \<or> e = RenameTempFailed)"
    using atomicWrite_failure_keeps_document
      [of "no_faults\<lparr>write_temp := WriteErr (Some ''## Con'')\<rparr>" ?st
          "''## Constraints'' @ [NL] @ ''new'' @ [NL]"]
    by (simp add: no_faults_def)
  have 2: "\<exists>e. AppendEntry (no_faults\<lparr>rename_fails := True\<rparr>) zeroTime ?st ''constraints'' ?e
         = (Inl (WriteMemoryFileFailed e), ?st)
         \<and> (e = WriteTempFailed \<or> e = RenameTempFailed)"
    using atomicWrite_failure_keeps_document
      [of "no_faults\<lparr>rename_fails := True\<rparr>" ?st _ zeroTime "''constraints''" ?e
          "''## Constraints'' @ [NL]"] f
    by (simp add: no_faults_def acquireLock_def readFile_def)
  from 1 2 show ?thesis by blast
qed

lemma AppendEntry_commits:
  assumes "acquireLock env = Inr ()"
    and "readFile env st = Inr content0"
    and "D = (if content0 = [] then createInitialContent clock else content0)"
    and "findSectionStart D (capitalize sectionType) = Some start"
    and "write_temp env = Written" and "\<not> rename_fails env"
  shows "\<exists>e D'. findSectionEnd D start = Inr e \<and> start \<le> e \<and> e \<le> length D
           \<and> AppendEntry env clock st sectionType entry
               = (Inr (), st\<lparr>memory_file := Some D', temp_file := None\<rparr>)
           \<and> D' = take e D @ renderEntry entry @ [NL] @ drop e D
           \<and> take e D' = take e D
           \<and> take (length (renderEntry entry) + 1) (drop e D') = renderEntry entry @ [NL]
           \<and> drop (e + (length (renderEntry entry) + 1)) D' = drop e D"
proof -
  from AppendEntry_reaches_write [OF assms(1,2,3,4), of entry]
  obtain e where e: "findSectionEnd D start = Inr e" "start \<le> e" "e \<le> length D"
    and ae: "AppendEntry env clock st sectionType entry =
             (case atomicWrite env st (take e D @ renderEntry entry @ [NL] @ drop e D) of
                (Inl err, st') \<Rightarrow> (Inl (WriteMemoryFileFailed err), st')
              | (Inr _, st') \<Rightarrow> (Inr (), st'))"
    by blast
  define D' where "D' = take e D @ renderEntry entry @ [NL] @ drop e D"
  have ok: "AppendEntry env clock st sectionType entry
               = (Inr (), st\<lparr>memory_file := Some D', temp_file := None\<rparr>)"
    using ae atomicWrite_ok [OF assms(5,6), of st D'] by (simp add: D'_def)
  have len: "length (take e D) = e" using e(3) by simp
  have t: "take e D' = take e D"
    unfolding D'_def using len by simp
  have d: "drop e D' = renderEntry entry @ [NL] @ drop e D"
    unfolding D'_def using len by simp
  have m: "take (length (renderEntry entry) + 1) (drop e D') = renderEntry entry @ [NL]"
    unfolding d by simp
  have r: "drop (e + (length (renderEntry entry) + 1)) D' = drop e D"
    using d by (metis append.assoc append_eq_conv_conj drop_drop add.commute length_append_singleton Suc_eq_plus1)
  from e ok t m r D'_def show ?thesis by blast
qed



section \<open>The synthesized document\<close>

lemma digit_chars: "digit d \<in> set ''0123456789''"
proof -
  have "d mod 10 < length ''0123456789''" by simp
  then show ?thesis unfolding digit_def by (rule nth_mem)
qed

lemma decimal_chars: "set (decimal n) \<subseteq> set ''0123456789''"
proof (induction n rule: decimal.induct)
  case (1 n)
  show ?case
  proof (cases "n < 10")
    case True
    then show ?thesis using digit_chars [of n] by (subst decimal.simps) simp
  next
    case False
    with "1.IH" digit_chars [of n] show ?thesis by (subst decimal.simps) simp
  qed
qed

lemma decimal_no_hash: "CHR ''#'' \<notin> set (decimal n)"
  using decimal_chars [of n] by auto

lemma appendInt_no_hash: "CHR ''#'' \<notin> set (appendInt x w)"
  unfolding appendInt_def using decimal_no_hash [of x] by simp

lemma formatZone_no_hash: "CHR ''#'' \<notin> set (formatZone z)"
  unfolding formatZone_def Let_def by (simp add: appendInt_no_hash)

lemma formatRFC3339_no_hash: "CHR ''#'' \<notin> set (formatRFC3339 t)"
  unfolding formatRFC3339_def by (simp add: appendInt_no_hash formatZone_no_hash)

lemma Index_skip:
  "c \<notin> set pre \<Longrightarrow>
   Index (pre @ rest) (c # sub) = map_option ((+) (length pre)) (Index rest (c # sub))"
proof (induction pre)
  case Nil
  show ?case by (simp add: option.map_ident)
next
  case (Cons x pre)
  then have "\<not> HasPrefix (x # pre @ rest) (c # sub)"
    by (auto simp: HasPrefix_def)
  with Cons show ?case
    by (simp add: option.map_comp comp_def)
qed

lemma frontMatter_no_hash: "CHR ''#'' \<notin> set (frontMatter now)"
  unfolding frontMatter_def by (simp add: formatRFC3339_no_hash NL_def)

lemma findSectionStart_initial:
  "findSectionStart (createInitialContent now) section
   = map_option ((+) (length (frontMatter now))) (Index emptySections (''## '' @ section))"
  unfolding findSectionStart_def createInitialContent_def
  using Index_skip [OF frontMatter_no_hash, of now emptySections "''# '' @ section"]
  by simp

lemma findSectionEnd_shift:
  assumes "k + 3 \<le> length rest"
  shows "findSectionEnd (pre @ rest) (length pre + k)
         = (case findSectionEnd rest k of Inl e \<Rightarrow> Inl e | Inr v \<Rightarrow> Inr (length pre + v))"
proof -
  have d: "drop (length pre + k + 3) (pre @ rest) = drop (k + 3) rest"
    by (simp add: add.assoc)
  have l: "\<not> length (pre @ rest) < length pre + k + 3" "\<not> length rest < k + 3"
    using assms by simp_all
  show ?thesis
  proof (cases "find (\<lambda>line. HasPrefix line ''## '') (Split_NL (drop (k + 3) rest))")
    case None
    then show ?thesis
      unfolding findSectionEnd_def Let_def d using l by simp
  next
    case line: (Some line)
    show ?thesis
    proof (cases "Index (drop (k + 3) rest) line")
      case None
      with line l show ?thesis
        unfolding findSectionEnd_def Let_def d by simp
    next
      case (Some pos)
      with line l show ?thesis
        unfolding findSectionEnd_def Let_def d by simp
    qed
  qed
qed

lemma emptySections_length: "length emptySections = 60"
  by (simp add: emptySections_def)

lemma capitalize_examples:
  "capitalize ''constraints'' = ''Constraints''"
  "capitalize ''decisions'' = ''Decisions''"
  "capitalize ''patterns'' = ''Patterns''"
  "capitalize ''anti-patterns'' = ''Anti-patterns''"
  by code_simp+

lemma Index_emptySections:
  "Index emptySections ''## '' = Some 0"
  "Index emptySections ''## Constraints'' = Some 0"
  "Index emptySections ''## Decisions'' = Some 16"
  "Index emptySections ''## Patterns'' = Some 30"
  "Index emptySections ''## Anti-patterns'' = None"
  by code_simp+

lemma findSectionEnd_emptySections:
  "findSectionEnd emptySections 0 = Inr 16"
  "findSectionEnd emptySections 16 = Inr 30"
  "findSectionEnd emptySections 30 = Inr 43"
  by code_simp+

lemma take_drop_emptySections:
  "take 16 emptySections = ''## Constraints'' @ [NL] @ [NL]"
  "drop 16 emptySections = ''## Decisions'' @ [NL] @ [NL] @ ''## Patterns'' @ [NL] @ [NL] @ ''## Anti-Patterns'' @ [NL]"
  by code_simp+


lemma no_faults_simps:
  "acquireLock no_faults = Inr ()"
  "readFile no_faults \<lparr>memory_file = None, temp_file = tmp\<rparr> = Inr []"
  "write_temp no_faults = Written"
  "\<not> rename_fails no_faults"
  by (simp_all add: acquireLock_def readFile_def no_faults_def)

lemma AppendEntry_fresh:
  assumes k: "Index emptySections (''## '' @ capitalize sectionType) = Some k"
    and e: "findSectionEnd emptySections k = Inr e"
  shows "AppendEntry no_faults clock \<lparr>memory_file = None, temp_file = tmp\<rparr> sectionType entry
         = (Inr (), \<lparr>memory_file = Some (frontMatter clock @ take e emptySections
                                           @ renderEntry entry @ [NL] @ drop e emptySections),
                     temp_file = None\<rparr>)"
proof -
  define D where "D = createInitialContent clock"
  have D: "D = (if ([]::string) = [] then createInitialContent clock else [])"
    by (simp add: D_def)
  have start: "findSectionStart D (capitalize sectionType) = Some (length (frontMatter clock) + k)"
    unfolding D_def using k by (simp add: findSectionStart_initial)
  have "k + length (''## '' @ capitalize sectionType) \<le> length emptySections"
    using Index_bound [OF k] .
  then have kb: "k + 3 \<le> length emptySections" by simp
  have fe: "findSectionEnd D (length (frontMatter clock) + k) = Inr (length (frontMatter clock) + e)"
    unfolding D_def createInitialContent_def
    by (simp add: findSectionEnd_shift [OF kb] e)
  from AppendEntry_commits [OF no_faults_simps(1) no_faults_simps(2) D start no_faults_simps(3,4),
      of tmp entry]
  obtain e' D' where "findSectionEnd D (length (frontMatter clock) + k) = Inr e'"
    and ae: "AppendEntry no_faults clock \<lparr>memory_file = None, temp_file = tmp\<rparr> sectionType entry
               = (Inr (), \<lparr>memory_file = None, temp_file = tmp\<rparr>
                             \<lparr>memory_file := Some D', temp_file := None\<rparr>)"
    and D': "D' = take e' D @ renderEntry entry @ [NL] @ drop e' D"
    by blast
  with fe have e': "e' = length (frontMatter clock) + e" by simp
  have "D' = frontMatter clock @ take e emptySections @ renderEntry entry @ [NL]
               @ drop e emptySections"
    unfolding D' e' D_def createInitialContent_def by simp
  with ae show ?thesis by simp
qed

text \<open>
  Claim C10. For an input whose category is the empty string: \<open>ValidateInput\<close> accepts
  it exactly when its tag, content and rationale are valid (the default \<open>note\<close> passes
  the category check, and only inside \<open>ValidateInput\<close>); the section name capitalizes to
  the empty string; the heading searched for is \<open>## \<close>, so the section found is the
  first occurrence of \<open>## \<close> in the document; and on a store without a file, with
  nothing failing, \<open>AppendMemory\<close> succeeds and commits the synthesized document with the
  rendered entry at the end of the Constraints section, right before \<open>## Decisions\<close>.
\<close>

theorem empty_category_lands_in_Constraints:
  assumes "Category input = []"
  shows "(ValidateInput input = Inr () \<longleftrightarrow>
            tag_ok input \<and> 0 < length (Content input) \<and> length (Content input) \<le> 2000
            \<and> ValidateContent (Content input) = Inr () \<and> length (Rationale input) \<le> 500)
       \<and> capitalize (Category input) = []
       \<and> findSectionStart content (capitalize (Category input)) = Index content ''## ''
       \<and> AppendMemory no_faults clock \<lparr>memory_file = None, temp_file = tmp\<rparr> input uuid now
           = (Inr (),
              \<lparr>memory_file = Some (frontMatter clock
                   @ ''## Constraints'' @ [NL] @ [NL]
                   @ renderEntry (PrepareEntry input uuid now) @ [NL]
                   @ ''## Decisions'' @ [NL] @ [NL]
                   @ ''## Patterns'' @ [NL] @ [NL]
                   @ ''## Anti-Patterns'' @ [NL]),
               temp_file = None\<rparr>)"
proof -
  have v: "ValidateInput input = Inr () \<longleftrightarrow>
            tag_ok input \<and> 0 < length (Content input) \<and> length (Content input) \<le> 2000
            \<and> ValidateContent (Content input) = Inr () \<and> length (Rationale input) \<le> 500"
    using assms by (simp add: ValidateInput_ok_iff IsValid_def)
  have c: "capitalize (Category input) = []"
    using assms by simp
  have f: "findSectionStart content (capitalize (Category input)) = Index content ''## ''"
    unfolding c findSectionStart_def by simp
  have k: "Index emptySections (''## '' @ capitalize (Category input)) = Some 0"
    unfolding c using Index_emptySections(1) by simp
  have a: "AppendMemory no_faults clock \<lparr>memory_file = None, temp_file = tmp\<rparr> input uuid now
           = (Inr (),
              \<lparr>memory_file = Some (frontMatter clock
                   @ ''## Constraints'' @ [NL] @ [NL]
                   @ renderEntry (PrepareEntry input uuid now) @ [NL]
                   @ ''## Decisions'' @ [NL] @ [NL]
                   @ ''## Patterns'' @ [NL] @ [NL]
                   @ ''## Anti-Patterns'' @ [NL]),
               temp_file = None\<rparr>)"
    unfolding AppendMemory_def
    using AppendEntry_fresh [OF k findSectionEnd_emptySections(1),
        of clock tmp "PrepareEntry input uuid now"]
    by (simp add: take_drop_emptySections)
  from v c f a show ?thesis by blast
qed

theorem empty_category_lands_in_Constraints_witness:
  "ValidateInput \<lparr>Category = [], Tag = ''API'', Content = ''Use RESTful conventions'',
                   Rationale = []\<rparr> = Inr ()
   \<and> AppendMemory no_faults zeroTime \<lparr>memory_file = None, temp_file = None\<rparr>
        \<lparr>Category = [], Tag = ''API'', Content = ''Use RESTful conventions'', Rationale = []\<rparr>
        ''0190a6f0'' zeroTime
      = (Inr (),
         \<lparr>memory_file = Some (frontMatter zeroTime
              @ ''## Constraints'' @ [NL] @ [NL]
              @ renderEntry (PrepareEntry
                  \<lparr>Category = [], Tag = ''API'', Content = ''Use RESTful conventions'',
                   Rationale = []\<rparr> ''0190a6f0'' zeroTime) @ [NL]
              @ ''## Decisions'' @ [NL] @ [NL]
              @ ''## Patterns'' @ [NL] @ [NL]
              @ ''## Anti-Patterns'' @ [NL]),
          temp_file = None\<rparr>)"
proof -
  have c: "Category \<lparr>Category = [], Tag = ''API'', Content = ''Use RESTful conventions'',
                     Rationale = []\<rparr> = []"
    by simp
  have v: "ValidateContent ''Use RESTful conventions'' = Inr ()"
    by code_simp
  from empty_category_lands_in_Constraints [OF c, of _ zeroTime None "''0190a6f0''" zeroTime] v
  show ?thesis by simp
qed

section \<open>Where the code departs from the specification\<close>

lemma AppendEntry_fresh_three:
  "sectionType \<in> {''constraints'', ''decisions'', ''patterns''} \<Longrightarrow>
   fst (AppendEntry no_faults clock \<lparr>memory_file = None, temp_file = tmp\<rparr> sectionType entry)
   = Inr ()"
  using
    AppendEntry_fresh [of "''constraints''" 0 16 clock tmp entry]
    AppendEntry_fresh [of "''decisions''" 16 30 clock tmp entry]
    AppendEntry_fresh [of "''patterns''" 30 43 clock tmp entry]
    Index_emptySections findSectionEnd_emptySections capitalize_examples
  by (auto simp del: capitalize.simps)

text \<open>
  Claim C2, at the category \<open>anti-patterns\<close>: on a store without a file, with nothing
  failing, \<open>AppendEntry\<close> synthesizes the document with the heading \<open>## Anti-Patterns\<close>,
  looks for \<open>## Anti-patterns\<close>, fails with "section not found" and writes nothing.
\<close>

theorem AppendEntry_anti_patterns_not_found:
  "AppendEntry no_faults clock \<lparr>memory_file = None, temp_file = tmp\<rparr> ''anti-patterns'' entry
   = (Inl (SectionNotFound ''Anti-patterns''), \<lparr>memory_file = None, temp_file = tmp\<rparr>)"
proof -
  have "findSectionStart (createInitialContent clock) ''Anti-patterns'' = None"
    using Index_emptySections(5) by (simp add: findSectionStart_initial)
  then show ?thesis
    by (simp add: AppendEntry_def no_faults_simps capitalize_examples del: capitalize.simps)
qed

text \<open>
  Claim C1, at one valid entry. The anchored pattern has six groups: id, tag, time, tag
  name, content, rationale. \<open>parseV1Anchored\<close> reads the content from group 3 and the
  rationale from group 4, and never sets \<open>CreatedAt\<close>: parsing the rendering of the
  entry yields one entry whose content is the time stamp, whose rationale is the tag
  name and whose creation time is the zero time.
\<close>

theorem parseV1Anchored_renderEntry_differs:
  "parseV1Anchored (renderEntry
      \<lparr>Entry_ID = ''0190a6f0-7c3e-7abc-8def-0123456789ab'', Entry_Tag = ''[API]'',
       Entry_TagName = ''API'', Entry_Content = ''Use RESTful conventions'',
       Entry_Rationale = [],
       Entry_CreatedAt = \<lparr>Year = 2024, Month = 1, Day = 15, Hour = 10, Minute = 30,
                           Second = 0, ZoneOffset = 0\<rparr>\<rparr>)
   = Some [\<lparr>Entry_ID = ''0190a6f0-7c3e-7abc-8def-0123456789ab'', Entry_Tag = ''[API]'',
            Entry_TagName = ''API'', Entry_Content = ''2024-01-15T10:30:00Z'',
            Entry_Rationale = ''API'', Entry_CreatedAt = zeroTime\<rparr>]"
  by code_simp

text \<open>
  Claim C6, at a section of two legacy lines. \<open>GetSection\<close> returns one entry per line,
  with empty id and zero creation time, and logs the warning; but the legacy pattern
  captures everything after \<open>Rationale:\<close>, so the rationale of the first line comes
  back as \<open>" simple"\<close>, with the space that follows the colon, not as \<open>"simple"\<close>.
\<close>

theorem GetSection_legacy_rationale_space:
  "GetSection no_faults
     \<lparr>memory_file = Some (''## Constraints'' @ [NL]
                          @ ''* **[API]** Use REST (*Rationale: simple*)'' @ [NL]
                          @ ''* **[DB]** Use Postgres'' @ [NL]
                          @ [NL] @ ''## Decisions'' @ [NL]),
      temp_file = None\<rparr> ''constraints''
   = Inr (\<lparr>Section_Type = ''constraints'',
           Section_Entries =
             [\<lparr>Entry_ID = [], Entry_Tag = ''[API]'', Entry_TagName = ''API'',
               Entry_Content = ''Use REST'', Entry_Rationale = '' simple'',
               Entry_CreatedAt = zeroTime\<rparr>,
              \<lparr>Entry_ID = [], Entry_Tag = ''[DB]'', Entry_TagName = ''DB'',
               Entry_Content = ''Use Postgres'', Entry_Rationale = [],
               Entry_CreatedAt = zeroTime\<rparr>]\<rparr>,
          [Warn_legacy_format ''constraints''])"
  by code_simp

text \<open>
  Claim C8, at a document whose Constraints section holds a line that mentions
  \<open>## Decisions\<close>. \<open>findSectionEnd\<close> finds the line \<open>## Decisions\<close> and then looks its
  text up with \<open>strings.Index\<close>, which finds the earlier mention inside the entry line:
  it returns offset 29, in the middle of that line, where the first line that begins
  with \<open>## \<close> starts at offset 43.
\<close>

theorem findSectionEnd_inside_a_line:
  "findSectionEnd (''## Constraints'' @ [NL] @ ''* **[T]** see ## Decisions'' @ [NL]
                   @ [NL] @ ''## Decisions'' @ [NL]) 0 = Inr 29
   \<and> sectionEnd_spec (''## Constraints'' @ [NL] @ ''* **[T]** see ## Decisions'' @ [NL]
                   @ [NL] @ ''## Decisions'' @ [NL]) 0 = 43"
  by code_simp

end
